theory Spec2Isabelle
  imports Main "HOL-Library.Sublist"
begin

section \<open>Python strings and the library functions the release module calls\<close>

text \<open>
  A Python \<open>str\<close> is a sequence of Unicode code points; a code point is a natural
  number here, so that text outside ASCII is one element per character, as in Python.
  \<open>lit\<close> embeds an ASCII literal of the source.
\<close>

type_synonym pystr = "nat list"

definition lit :: "string \<Rightarrow> pystr" where
  "lit s = map of_char s"

datatype py_error = ValueError | IndexError | KeyError

text \<open>\<open>str.isspace\<close> of one character, which is also the class \<open>\s\<close> of \<open>re\<close> on a \<open>str\<close> pattern.\<close>

definition isspace :: "nat \<Rightarrow> bool" where
  "isspace c \<longleftrightarrow>
     (0x09 \<le> c \<and> c \<le> 0x0D) \<or> (0x1C \<le> c \<and> c \<le> 0x20) \<or> c = 0x85 \<or> c = 0xA0 \<or>
     c = 0x1680 \<or> (0x2000 \<le> c \<and> c \<le> 0x200A) \<or> c = 0x2028 \<or> c = 0x2029 \<or>
     c = 0x202F \<or> c = 0x205F \<or> c = 0x3000"

text \<open>
  The decimal digits (Unicode category Nd, Unicode 14.0 as in CPython 3.10 and 3.11): blocks of
  ten consecutive code points, the digit's value being the offset in its block. This is the
  class \<open>\d\<close> of \<open>re\<close> on a \<open>str\<close> pattern and the digits \<open>int()\<close> accepts.
\<close>

definition nd_starts :: "nat list" where
  "nd_starts =
    [0x30, 0x660, 0x6F0, 0x7C0, 0x966, 0x9E6, 0xA66, 0xAE6, 0xB66, 0xBE6, 0xC66, 0xCE6,
     0xD66, 0xDE6, 0xE50, 0xED0, 0xF20, 0x1040, 0x1090, 0x17E0, 0x1810, 0x1946, 0x19D0,
     0x1A80, 0x1A90, 0x1B50, 0x1BB0, 0x1C40, 0x1C50, 0xA620, 0xA8D0, 0xA900, 0xA9D0,
     0xA9F0, 0xAA50, 0xABF0, 0xFF10, 0x104A0, 0x10D30, 0x11066, 0x110F0, 0x11136,
     0x111D0, 0x112F0, 0x11450, 0x114D0, 0x11650, 0x116C0, 0x11730, 0x118E0, 0x11950,
     0x11C50, 0x11D50, 0x11DA0, 0x16A60, 0x16AC0, 0x16B50, 0x1D7CE, 0x1D7D8, 0x1D7E2,
     0x1D7EC, 0x1D7F6, 0x1E140, 0x1E2F0, 0x1E950, 0x1FBF0]"

definition decimal :: "nat \<Rightarrow> nat option" where
  "decimal c = (case find (\<lambda>s. s \<le> c \<and> c < s + 10) nd_starts of
                  None \<Rightarrow> None | Some s \<Rightarrow> Some (c - s))"

definition isdecimal :: "nat \<Rightarrow> bool" where
  "isdecimal c \<longleftrightarrow> decimal c \<noteq> None"

text \<open>\<open>s.strip()\<close>, \<open>s.lstrip(chars)\<close>, \<open>s.startswith(p)\<close>, \<open>sep.join(xs)\<close>.\<close>

definition strip_with :: "(nat \<Rightarrow> bool) \<Rightarrow> pystr \<Rightarrow> pystr" where
  "strip_with p s = rev (dropWhile p (rev (dropWhile p s)))"

definition strip :: "pystr \<Rightarrow> pystr" where
  "strip s = strip_with isspace s"

definition lstrip :: "pystr \<Rightarrow> pystr \<Rightarrow> pystr" where
  "lstrip chars s = dropWhile (\<lambda>c. c \<in> set chars) s"

definition startswith :: "pystr \<Rightarrow> pystr \<Rightarrow> bool" where
  "startswith s p \<longleftrightarrow> take (length p) s = p"

fun join :: "pystr \<Rightarrow> pystr list \<Rightarrow> pystr" where
  "join sep [] = []"
| "join sep [x] = x"
| "join sep (x # y # ys) = x @ sep @ join sep (y # ys)"

text \<open>
  \<open>s.split(sep)\<close> and \<open>s.split(sep, maxsplit=n)\<close> for a separator of one character, which
  is all the source uses. The result is never empty: \<open>"".split(sep)\<close> is \<open>[""]\<close>.
\<close>

fun split_max :: "nat \<Rightarrow> nat \<Rightarrow> pystr \<Rightarrow> pystr list" where
  "split_max sep 0 s = [s]"
| "split_max sep (Suc n) [] = [[]]"
| "split_max sep (Suc n) (x # xs) =
     (if x = sep then [] # split_max sep n xs
      else (case split_max sep (Suc n) xs of
              [] \<Rightarrow> [[x]]
            | y # ys \<Rightarrow> (x # y) # ys))"

fun split_on :: "nat \<Rightarrow> pystr \<Rightarrow> pystr list" where
  "split_on sep [] = [[]]"
| "split_on sep (x # xs) =
     (if x = sep then [] # split_on sep xs
      else (case split_on sep xs of
              [] \<Rightarrow> [[x]]
            | y # ys \<Rightarrow> (x # y) # ys))"

text \<open>
  The interpreter converts at most \<open>int_max_str_digits\<close> decimal digits between \<open>int\<close> and
  \<open>str\<close>: 4300 unless the program changes the limit, which this one does not. Beyond
  the limit both conversions raise \<open>ValueError\<close>. The sign and underscores do not count,
  leading zeros do.
\<close>

definition int_max_str_digits :: nat where
  "int_max_str_digits = 4300"

text \<open>\<open>str(n)\<close> of an integer, which is what \<open>f"{n}"\<close> produces.\<close>

fun nat_digits :: "nat \<Rightarrow> pystr" where
  "nat_digits n = (if n < 10 then [0x30 + n] else nat_digits (n div 10) @ [0x30 + n mod 10])"

declare nat_digits.simps [simp del]

definition py_str :: "int \<Rightarrow> py_error + pystr" where
  "py_str i =
     (let ds = nat_digits (nat \<bar>i\<bar>)
      in if length ds > int_max_str_digits then Inl ValueError
         else Inr (if i < 0 then 0x2D # ds else ds))"

text \<open>
  \<open>int(s)\<close> in base ten: white space around the number is skipped, one sign is allowed,
  digits may be any decimal digits and single underscores may stand between digits;
  everything else raises \<open>ValueError\<close>, and so does a number of more digits than the
  limit (the digits are counted up to the first character that is neither a digit nor an
  underscore). The white space \<open>int\<close> skips is the ASCII white space of C and the Unicode
  white space outside ASCII.
\<close>

definition int_space :: "nat \<Rightarrow> bool" where
  "int_space c \<longleftrightarrow> (0x09 \<le> c \<and> c \<le> 0x0D) \<or> c = 0x20 \<or> (0x7F \<le> c \<and> isspace c)"

fun int_digits :: "pystr \<Rightarrow> bool \<Rightarrow> int \<Rightarrow> int option" where
  "int_digits [] prev acc = (if prev then Some acc else None)"
| "int_digits (c # cs) prev acc =
     (case decimal c of
        Some d \<Rightarrow> int_digits cs True (10 * acc + int d)
      | None \<Rightarrow> if c = 0x5F \<and> prev then int_digits cs False acc else None)"

definition digit_count :: "pystr \<Rightarrow> nat" where
  "digit_count body =
     length (filter isdecimal (takeWhile (\<lambda>c. isdecimal c \<or> c = 0x5F) body))"

definition py_int :: "pystr \<Rightarrow> py_error + int" where
  "py_int s =
     (let t = strip_with int_space s;
          neg = (t \<noteq> [] \<and> hd t = 0x2D);
          body = (if t \<noteq> [] \<and> (hd t = 0x2D \<or> hd t = 0x2B) then tl t else t)
      in if digit_count body > int_max_str_digits then Inl ValueError
         else case int_digits body False 0 of
                None \<Rightarrow> Inl ValueError
              | Some v \<Rightarrow> Inr (if neg then - v else v))"

text \<open>Sequencing of operations that may raise: the first exception ends the evaluation.\<close>

definition and_then :: "py_error + 'a \<Rightarrow> ('a \<Rightarrow> py_error + 'b) \<Rightarrow> py_error + 'b" where
  "and_then m f = (case m of Inl e \<Rightarrow> Inl e | Inr v \<Rightarrow> f v)"

text \<open>\<open>xs[i]\<close> for a non-negative index: \<open>IndexError\<close> out of range.\<close>

definition item :: "'a list \<Rightarrow> nat \<Rightarrow> py_error + 'a" where
  "item xs i = (if i < length xs then Inr (xs ! i) else Inl IndexError)"

section \<open>The version calculator\<close>

text \<open>
  \<^verbatim>\<open>parts = [int(x) for x in version.split(".")]\<close>: the comprehension converts every
  part, left to right, and the first failing conversion raises.
\<close>

fun int_parts :: "pystr list \<Rightarrow> py_error + int list" where
  "int_parts [] = Inr []"
| "int_parts (x # xs) =
     (case py_int x of
        Inl e \<Rightarrow> Inl e
      | Inr v \<Rightarrow> (case int_parts xs of Inl e \<Rightarrow> Inl e | Inr vs \<Rightarrow> Inr (v # vs)))"

text \<open>
  The f-strings evaluate and format their expressions from left to right, so that
  \<^verbatim>\<open>parts[1]\<close> is read after \<^verbatim>\<open>parts[0]\<close> has been formatted.
\<close>

definition increment_version :: "pystr \<Rightarrow> pystr \<Rightarrow> py_error + pystr" where
  "increment_version version bump =
     and_then (int_parts (split_on 0x2E version)) (\<lambda>parts.
       if bump = lit ''major'' then
         and_then (item parts 0) (\<lambda>p0.
         and_then (py_str (p0 + 1)) (\<lambda>s0.
         Inr (s0 @ lit ''.0.0'')))
       else if bump = lit ''minor'' then
         and_then (item parts 0) (\<lambda>p0.
         and_then (py_str p0) (\<lambda>s0.
         and_then (item parts 1) (\<lambda>p1.
         and_then (py_str (p1 + 1)) (\<lambda>s1.
         Inr (s0 @ lit ''.'' @ s1 @ lit ''.0'')))))
       else
         and_then (item parts 0) (\<lambda>p0.
         and_then (py_str p0) (\<lambda>s0.
         and_then (item parts 1) (\<lambda>p1.
         and_then (py_str p1) (\<lambda>s1.
         and_then (item parts 2) (\<lambda>p2.
         and_then (py_str (p2 + 1)) (\<lambda>s2.
         Inr (s0 @ lit ''.'' @ s1 @ lit ''.'' @ s2))))))))"

text \<open>
  The string \<open>a.b.c\<close> of three non-negative integers in decimal; the integers that the
  interpreter converts (those of at most \<open>int_max_str_digits\<close> digits); the component a bump
  increments, after the increment; and the order of versions.
\<close>

definition version_string :: "nat \<Rightarrow> nat \<Rightarrow> nat \<Rightarrow> pystr" where
  "version_string a b c = nat_digits a @ lit ''.'' @ nat_digits b @ lit ''.'' @ nat_digits c"

definition convertible :: "nat \<Rightarrow> bool" where
  "convertible n \<longleftrightarrow> n < 10 ^ int_max_str_digits"

definition bumped :: "pystr \<Rightarrow> nat \<Rightarrow> nat \<Rightarrow> nat \<Rightarrow> nat" where
  "bumped bump a b c =
     (if bump = lit ''major'' then a + 1 else if bump = lit ''minor'' then b + 1 else c + 1)"

fun version_less :: "int \<times> int \<times> int \<Rightarrow> int \<times> int \<times> int \<Rightarrow> bool" where
  "version_less (a, b, c) (a', b', c') \<longleftrightarrow>
     a < a' \<or> (a = a' \<and> (b < b' \<or> (b = b' \<and> c < c')))"

section \<open>Regular expressions, as far as the release module uses them\<close>

text \<open>
  Every pattern of the source is a sequence of one-character items (a literal or a class),
  each with a quantifier. The matcher is the backtracking matcher of \<open>re\<close>: it returns the
  remainders of the subject after every way of matching, the preferred one first (a greedy
  quantifier takes as much as it can, then gives back).
\<close>

datatype quant = One | Opt | Star | Plus

type_synonym rx_item = "(nat \<Rightarrow> bool) \<times> quant"

fun star_run :: "(nat \<Rightarrow> bool) \<Rightarrow> pystr \<Rightarrow> pystr list" where
  "star_run p [] = [[]]"
| "star_run p (c # cs) = (if p c then star_run p cs @ [c # cs] else [c # cs])"

fun item_run :: "rx_item \<Rightarrow> pystr \<Rightarrow> pystr list" where
  "item_run (p, One) s = (case s of [] \<Rightarrow> [] | c # cs \<Rightarrow> if p c then [cs] else [])"
| "item_run (p, Opt) s = (case s of [] \<Rightarrow> [s] | c # cs \<Rightarrow> if p c then [cs, s] else [s])"
| "item_run (p, Star) s = star_run p s"
| "item_run (p, Plus) s = (case s of [] \<Rightarrow> [] | c # cs \<Rightarrow> if p c then star_run p cs else [])"

fun rx_run :: "rx_item list \<Rightarrow> pystr \<Rightarrow> pystr list" where
  "rx_run [] s = [s]"
| "rx_run (i # is) s = concat (map (rx_run is) (item_run i s))"

text \<open>
  \<open>$\<close> without the MULTILINE flag holds at the end of the subject and just before a
  newline that ends the subject.
\<close>

definition at_end :: "pystr \<Rightarrow> bool" where
  "at_end r \<longleftrightarrow> r = [] \<or> r = [0x0A]"

text \<open>\<open>re.match(pattern + "$", s)\<close>, as a truth value.\<close>

definition re_match_end :: "rx_item list \<Rightarrow> pystr \<Rightarrow> bool" where
  "re_match_end items s = list_ex at_end (rx_run items s)"

text \<open>
  \<open>re.sub("^" + pattern, repl, s)\<close> for a pattern that cannot match the empty string:
  \<open>^\<close> without MULTILINE holds at position 0 only, so at most the match at the start is
  replaced, and a subject that does not match is returned as it is.
\<close>

definition re_sub_start :: "rx_item list \<Rightarrow> pystr \<Rightarrow> pystr \<Rightarrow> pystr" where
  "re_sub_start items repl s = (case rx_run items s of [] \<Rightarrow> s | r # _ \<Rightarrow> repl @ r)"

definition chr :: "nat \<Rightarrow> rx_item" where
  "chr c = ((\<lambda>x. x = c), One)"

text \<open>\<^verbatim>\<open>^v?\d+\.\d+\.\d+$\<close> without its anchors.\<close>

definition semver_pattern :: "rx_item list" where
  "semver_pattern =
     [((\<lambda>x. x = 0x76), Opt), (isdecimal, Plus), chr 0x2E, (isdecimal, Plus), chr 0x2E,
      (isdecimal, Plus)]"

text \<open>\<^verbatim>\<open>^feat[:\s]*\<close>, \<^verbatim>\<open>^fix[:\s]*\<close>, \<^verbatim>\<open>^perf[:\s]*\<close>, \<^verbatim>\<open>^refactor[:\s]*\<close> without the anchor.\<close>

definition colon_space :: "nat \<Rightarrow> bool" where
  "colon_space c \<longleftrightarrow> c = 0x3A \<or> isspace c"

definition prefix_pattern :: "pystr \<Rightarrow> rx_item list" where
  "prefix_pattern token = map chr token @ [(colon_space, Star)]"

section \<open>Version control as the release module sees it\<close>

text \<open>
  \<open>subprocess.run\<close> is the only effect of the module: it is a function from the command
  line and the working directory to the completed process, of which the module reads the
  exit status and the captured output (which may be \<open>None\<close>).
\<close>

record completed_process =
  returncode :: int
  stdout :: "pystr option"

type_synonym runner = "pystr list \<Rightarrow> pystr \<Rightarrow> completed_process"

text \<open>\<^verbatim>\<open>result.stdout or ""\<close>\<close>

definition stdout_or_empty :: "completed_process \<Rightarrow> pystr" where
  "stdout_or_empty result = (case stdout result of None \<Rightarrow> [] | Some s \<Rightarrow> s)"

section \<open>The tag resolver\<close>

fun first_semver_tag :: "pystr list \<Rightarrow> pystr option" where
  "first_semver_tag [] = None"
| "first_semver_tag (tag # tags) =
     (if re_match_end semver_pattern tag then Some (lstrip (lit ''v'') tag)
      else first_semver_tag tags)"

definition tag_command :: "pystr list" where
  "tag_command = [lit ''git'', lit ''tag'', lit ''--sort=-v:refname'']"

definition get_latest_tag :: "runner \<Rightarrow> pystr \<Rightarrow> pystr option" where
  "get_latest_tag run project_root =
     (let result = run tag_command project_root
      in if returncode result \<noteq> 0 then None
         else first_semver_tag (split_on 0x0A (strip (stdout_or_empty result))))"

section \<open>The commit harvester\<close>

type_synonym commit = "pystr \<rightharpoonup> pystr"

fun parse_commits :: "pystr list \<Rightarrow> commit list" where
  "parse_commits [] = []"
| "parse_commits (line # lines) =
     (let parts = split_max 0x7C 2 line
      in if length parts \<ge> 2
         then [lit ''message'' \<mapsto> parts ! 0, lit ''hash'' \<mapsto> parts ! 1] # parse_commits lines
         else parse_commits lines)"

definition log_command :: "pystr \<Rightarrow> pystr list" where
  "log_command tag =
     [lit ''git'', lit ''log'', lit ''v'' @ tag @ lit ''..HEAD'', lit ''--pretty=format:%s|%h|%an'']"

definition get_commits_since_tag :: "runner \<Rightarrow> pystr \<Rightarrow> pystr \<Rightarrow> commit list" where
  "get_commits_since_tag run tag project_root =
     (let result = run (log_command tag) project_root;
          out = stdout_or_empty result
      in if returncode result \<noteq> 0 \<or> strip out = [] then []
         else parse_commits (split_on 0x0A (strip out)))"

section \<open>The commit categorizer\<close>

type_synonym categories = "pystr \<rightharpoonup> pystr list"

definition empty_categories :: categories where
  "empty_categories =
     [lit ''feat'' \<mapsto> [], lit ''fix'' \<mapsto> [], lit ''perf'' \<mapsto> [], lit ''refactor'' \<mapsto> [],
      lit ''docs'' \<mapsto> [], lit ''other'' \<mapsto> []]"

text \<open>\<^verbatim>\<open>categories[key].append(msg)\<close>; a missing key raises.\<close>

definition append_to :: "categories \<Rightarrow> pystr \<Rightarrow> pystr \<Rightarrow> py_error + categories" where
  "append_to cats key msg =
     (case cats key of
        None \<Rightarrow> Inl KeyError
      | Some msgs \<Rightarrow> Inr (cats(key \<mapsto> msgs @ [msg])))"

text \<open>The body of the loop; \<^verbatim>\<open>commit["message"]\<close> raises when the commit has no message.\<close>

definition categorize_step :: "categories \<Rightarrow> commit \<Rightarrow> py_error + categories" where
  "categorize_step cats commit =
     (case commit (lit ''message'') of
        None \<Rightarrow> Inl KeyError
      | Some msg \<Rightarrow>
          if startswith msg (lit ''feat'') then append_to cats (lit ''feat'') msg
          else if startswith msg (lit ''fix'') then append_to cats (lit ''fix'') msg
          else if startswith msg (lit ''perf'') then append_to cats (lit ''perf'') msg
          else if startswith msg (lit ''refactor'') then append_to cats (lit ''refactor'') msg
          else if startswith msg (lit ''docs'') then append_to cats (lit ''docs'') msg
          else append_to cats (lit ''other'') msg)"

fun categorize_loop :: "categories \<Rightarrow> commit list \<Rightarrow> py_error + categories" where
  "categorize_loop cats [] = Inr cats"
| "categorize_loop cats (commit # commits) =
     (case categorize_step cats commit of
        Inl e \<Rightarrow> Inl e
      | Inr cats' \<Rightarrow> categorize_loop cats' commits)"

definition categorize_commits :: "commit list \<Rightarrow> py_error + categories" where
  "categorize_commits commits = categorize_loop empty_categories commits"

section \<open>The release notes generator\<close>

text \<open>
  One of the four blocks of the source: \<^verbatim>\<open>if categories[key]:\<close> appends the title, one
  bullet for each message with the prefix removed by \<open>re.sub\<close>, and an empty line.
\<close>

definition notes_section ::
  "categories \<Rightarrow> pystr \<Rightarrow> pystr \<Rightarrow> pystr list \<Rightarrow> py_error + pystr list" where
  "notes_section cats key title lines =
     (case cats key of
        None \<Rightarrow> Inl KeyError
      | Some msgs \<Rightarrow>
          if msgs \<noteq> [] then
            Inr (lines @ [title]
                 @ map (\<lambda>msg. lit ''- '' @ re_sub_start (prefix_pattern key) [] msg) msgs
                 @ [[]])
          else Inr lines)"

definition feat_title :: pystr where
  "feat_title = lit ''## '' @ [0x2728] @ lit '' New Features'' @ [0x0A]"

definition fix_title :: pystr where
  "fix_title = lit ''## '' @ [0x1F41B] @ lit '' Bug Fixes'' @ [0x0A]"

definition perf_title :: pystr where
  "perf_title = lit ''## '' @ [0x26A1] @ lit '' Performance'' @ [0x0A]"

definition refactor_title :: pystr where
  "refactor_title = lit ''## '' @ [0x1F527] @ lit '' Internal Changes'' @ [0x0A]"

text \<open>
  \<^verbatim>\<open>if prev_tag:\<close> holds for a tag that is neither \<open>None\<close> nor the empty string; in both
  other cases only the heading is joined.
\<close>

definition generate_release_notes ::
  "runner \<Rightarrow> pystr \<Rightarrow> pystr option \<Rightarrow> pystr \<Rightarrow> py_error + pystr" where
  "generate_release_notes run version prev_tag project_root =
     (let lines = [lit ''## v'' @ version @ [0x0A]]
      in case prev_tag of
           None \<Rightarrow> Inr (join [0x0A] lines)
         | Some tag \<Rightarrow>
             if tag = [] then Inr (join [0x0A] lines)
             else
               (case categorize_commits (get_commits_since_tag run tag project_root) of
                  Inl e \<Rightarrow> Inl e
                | Inr cats \<Rightarrow>
                    (case notes_section cats (lit ''feat'') feat_title lines of
                       Inl e \<Rightarrow> Inl e
                     | Inr lines1 \<Rightarrow>
                    (case notes_section cats (lit ''fix'') fix_title lines1 of
                       Inl e \<Rightarrow> Inl e
                     | Inr lines2 \<Rightarrow>
                    (case notes_section cats (lit ''perf'') perf_title lines2 of
                       Inl e \<Rightarrow> Inl e
                     | Inr lines3 \<Rightarrow>
                    (case notes_section cats (lit ''refactor'') refactor_title lines3 of
                       Inl e \<Rightarrow> Inl e
                     | Inr lines4 \<Rightarrow> Inr (join [0x0A] lines4)))))))"

section \<open>The vocabulary of the specification\<close>

text \<open>
  The categories in their priority order, and the category the specification gives a
  message: the first category whose name is a prefix of the message, \<open>other\<close> when there
  is none. These follow the words of the specification, not the code.
\<close>

definition category_order :: "pystr list" where
  "category_order = [lit ''feat'', lit ''fix'', lit ''perf'', lit ''refactor'', lit ''docs'']"

definition category_keys :: "pystr list" where
  "category_keys = category_order @ [lit ''other'']"

definition category_of :: "pystr \<Rightarrow> pystr" where
  "category_of msg =
     (case find (\<lambda>k. prefix k msg) category_order of None \<Rightarrow> lit ''other'' | Some k \<Rightarrow> k)"

text \<open>A commit is a record with a message; its representation is a dictionary.\<close>

definition has_message :: "commit \<Rightarrow> bool" where
  "has_message c \<longleftrightarrow> c (lit ''message'') \<noteq> None"

definition messages :: "commit list \<Rightarrow> pystr list" where
  "messages commits = List.map_filter (\<lambda>c. c (lit ''message'')) commits"

definition bucket :: "categories \<Rightarrow> pystr \<Rightarrow> pystr list" where
  "bucket cats k = (case cats k of None \<Rightarrow> [] | Some msgs \<Rightarrow> msgs)"

text \<open>The categories after the messages \<open>msgs\<close> have been appended, each to its bucket.\<close>

definition appended :: "categories \<Rightarrow> pystr list \<Rightarrow> categories" where
  "appended cats msgs =
     (\<lambda>k. map_option (\<lambda>ms. ms @ filter (\<lambda>m. category_of m = k) msgs) (cats k))"

section \<open>Example inputs\<close>

definition constant_run :: "int \<Rightarrow> pystr option \<Rightarrow> runner" where
  "constant_run rc out = (\<lambda>args cwd. \<lparr>returncode = rc, stdout = out\<rparr>)"







definition example_commits :: "commit list" where
  "example_commits =
     [[lit ''message'' \<mapsto> lit ''feat: perf improvements'', lit ''hash'' \<mapsto> lit ''a''],
      [lit ''message'' \<mapsto> lit ''Feat: x'', lit ''hash'' \<mapsto> lit ''b''],
      [lit ''message'' \<mapsto> lit ''fix: y'', lit ''hash'' \<mapsto> lit ''c'']]"

definition example_commits2 :: "commit list" where
  "example_commits2 =
     [[lit ''message'' \<mapsto> lit ''featuring'', lit ''hash'' \<mapsto> lit ''a''],
      [lit ''message'' \<mapsto> lit ''chore: z'', lit ''hash'' \<mapsto> lit ''b'']]"

section \<open>The vocabulary of the specification: tags, queries and log lines\<close>






text \<open>A failed query: a non-zero exit status, or no output, or only white space.\<close>

definition query_failed :: "completed_process \<Rightarrow> bool" where
  "query_failed result \<longleftrightarrow>
     returncode result \<noteq> 0 \<or> (case stdout result of None \<Rightarrow> True | Some s \<Rightarrow> list_all isspace s)"

text \<open>The first two fields of a log line: the text before the first bar, and the text after it
  up to the second bar or the end.\<close>

definition field1 :: "pystr \<Rightarrow> pystr" where
  "field1 line = takeWhile (\<lambda>c. c \<noteq> 0x7C) line"

definition field2 :: "pystr \<Rightarrow> pystr" where
  "field2 line = takeWhile (\<lambda>c. c \<noteq> 0x7C) (drop 1 (dropWhile (\<lambda>c. c \<noteq> 0x7C) line))"

section \<open>The vocabulary of the specification: release notes\<close>

text \<open>
  A message without its category token and the colons and white space that follow it; the
  section of a category (its title, one bullet for each message, an empty line; nothing
  for an empty bucket); and the notes for a list of harvested messages: the heading, then
  the sections of \<open>feat\<close>, \<open>fix\<close>, \<open>perf\<close> and \<open>refactor\<close> in that order, joined by newlines.
\<close>

definition heading :: "pystr \<Rightarrow> pystr" where
  "heading version = lit ''## v'' @ version @ [0x0A]"

definition stripped :: "pystr \<Rightarrow> pystr \<Rightarrow> pystr" where
  "stripped token msg = dropWhile colon_space (drop (length token) msg)"

definition rendered_section :: "pystr \<Rightarrow> pystr \<Rightarrow> pystr list \<Rightarrow> pystr list" where
  "rendered_section token title msgs =
     (if msgs = [] then []
      else [title] @ map (\<lambda>msg. lit ''- '' @ stripped token msg) msgs @ [[]])"

definition rendered_notes :: "pystr \<Rightarrow> pystr list \<Rightarrow> pystr" where
  "rendered_notes version msgs =
     join [0x0A]
       ([heading version]
        @ rendered_section (lit ''feat'') feat_title
            (filter (\<lambda>m. category_of m = lit ''feat'') msgs)
        @ rendered_section (lit ''fix'') fix_title
            (filter (\<lambda>m. category_of m = lit ''fix'') msgs)
        @ rendered_section (lit ''perf'') perf_title
            (filter (\<lambda>m. category_of m = lit ''perf'') msgs)
        @ rendered_section (lit ''refactor'') refactor_title
            (filter (\<lambda>m. category_of m = lit ''refactor'') msgs))"

definition example_featuring_log :: pystr where
  "example_featuring_log = lit ''featuring X|abc1234|author''"

definition example_notes_log :: pystr where
  "example_notes_log =
     lit ''docs: d|1|a'' @ [0x0A] @ lit ''fix: b|2|a'' @ [0x0A] @ lit ''feat: a|3|a''
     @ [0x0A] @ lit ''chore|4|a'' @ [0x0A] @ lit ''fix:c|5|a''"

definition example_japanese_log :: pystr where
  "example_japanese_log =
     lit ''feat: '' @ [0x65B0, 0x6A5F, 0x80FD, 0x8FFD, 0x52A0] @ lit ''|abc1234|author'' @ [0x0A]
     @ lit ''fix: '' @ [0x30D0, 0x30B0, 0x4FEE, 0x6B63] @ lit ''|def5678|author'' @ [0x0A]"

section \<open>Properties of the library functions\<close>

lemma and_then_simps [simp]: "and_then (Inr v) f = f v" "and_then (Inl e) f = Inl e"
  by (simp_all add: and_then_def)

lemma decimal_ascii_digit: "d < 10 \<Longrightarrow> decimal (0x30 + d) = Some d"
  by (simp add: decimal_def nd_starts_def)

lemma nat_digits_set: "c \<in> set (nat_digits n) \<Longrightarrow> 0x30 \<le> c \<and> c < 0x3A"
proof (induction n rule: nat_digits.induct)
  case (1 n)
  show ?case
  proof (cases "n < 10")
    case True
    with "1.prems" show ?thesis by (simp add: nat_digits.simps [of n])
  next
    case False
    with "1.prems" "1.IH" show ?thesis
      by (auto simp add: nat_digits.simps [of n])
  qed
qed

lemma nat_digits_nonempty: "nat_digits n \<noteq> []"
  by (subst nat_digits.simps) simp

lemma nat_digits_length_le: "0 < k \<Longrightarrow> n < 10 ^ k \<Longrightarrow> length (nat_digits n) \<le> k"
proof (induction k arbitrary: n)
  case 0
  then show ?case by simp
next
  case (Suc k)
  show ?case
  proof (cases "n < 10")
    case True
    then show ?thesis by (simp add: nat_digits.simps [of n])
  next
    case False
    with Suc.prems have k: "0 < k" by (cases k) auto
    from Suc.prems have "n div 10 < 10 ^ k" by (simp add: less_mult_imp_div_less mult.commute)
    with Suc.IH k have "length (nat_digits (n div 10)) \<le> k" by simp
    with False show ?thesis by (simp add: nat_digits.simps [of n])
  qed
qed

lemma nat_digits_length_gt: "10 ^ k \<le> n \<Longrightarrow> k < length (nat_digits n)"
proof (induction k arbitrary: n)
  case 0
  then show ?case using nat_digits_nonempty [of n] by (cases "nat_digits n") auto
next
  case (Suc k)
  have "(1::nat) \<le> 10 ^ k" by simp
  then have "(10::nat) \<le> 10 ^ Suc k" by simp
  with Suc.prems have n: "\<not> n < 10" by linarith
  from Suc.prems have "10 ^ k \<le> n div 10" by (simp add: less_eq_div_iff_mult_less_eq mult.commute)
  with Suc.IH have "k < length (nat_digits (n div 10))" by simp
  with n show ?case by (simp add: nat_digits.simps [of n])
qed

lemma max_positive: "0 < int_max_str_digits"
  by (simp add: int_max_str_digits_def)

lemma nat_digits_limit: "length (nat_digits n) > int_max_str_digits \<longleftrightarrow> \<not> convertible n"
proof (cases "convertible n")
  case True
  then have "length (nat_digits n) \<le> int_max_str_digits"
    using nat_digits_length_le [OF max_positive, of n] by (simp add: convertible_def)
  with True show ?thesis by simp
next
  case False
  then have "10 ^ int_max_str_digits \<le> n" by (simp add: convertible_def not_less)
  from nat_digits_length_gt [OF this] False show ?thesis by simp
qed

lemma py_str_nat: "py_str (int n) = (if convertible n then Inr (nat_digits n) else Inl ValueError)"
  by (simp add: py_str_def nat_digits_limit)


lemma nat_digits_0: "nat_digits 0 = lit ''0''"
  by (simp add: nat_digits.simps [of 0] lit_def)

lemma int_digits_snoc:
  "int_digits xs p acc = Some v \<Longrightarrow> d < 10 \<Longrightarrow>
   int_digits (xs @ [0x30 + d]) p acc = Some (10 * v + int d)"
proof (induction xs arbitrary: p acc)
  case Nil
  then show ?case by (simp add: decimal_ascii_digit split: if_splits)
next
  case (Cons c cs)
  then show ?case by (auto split: option.splits if_splits)
qed

lemma int_digits_nat_digits: "int_digits (nat_digits n) p 0 = Some (int n)"
proof (induction n rule: nat_digits.induct)
  case (1 n)
  show ?case
  proof (cases "n < 10")
    case True
    then show ?thesis by (simp add: nat_digits.simps [of n] decimal_ascii_digit)
  next
    case False
    with "1.IH" have "int_digits (nat_digits (n div 10)) p 0 = Some (int (n div 10))" by simp
    then have "int_digits (nat_digits (n div 10) @ [0x30 + n mod 10]) p 0
               = Some (10 * int (n div 10) + int (n mod 10))"
      by (rule int_digits_snoc) simp
    moreover have "10 * int (n div 10) + int (n mod 10) = int n"
      by (simp add: zdiv_int zmod_int)
    ultimately show ?thesis using False by (simp add: nat_digits.simps [of n])
  qed
qed

lemma dropWhile_none: "\<forall>c\<in>set s. \<not> p c \<Longrightarrow> dropWhile p s = s"
  by (cases s) auto

lemma strip_with_id: "\<forall>c\<in>set s. \<not> p c \<Longrightarrow> strip_with p s = s"
  by (simp add: strip_with_def dropWhile_none)

lemma isdecimal_ascii_digit: "0x30 \<le> c \<Longrightarrow> c < 0x3A \<Longrightarrow> isdecimal c"
  using decimal_ascii_digit [of "c - 0x30"] by (simp add: isdecimal_def)

lemma digit_count_nat_digits: "digit_count (nat_digits n) = length (nat_digits n)"
proof -
  have d: "\<forall>c\<in>set (nat_digits n). isdecimal c"
    using nat_digits_set isdecimal_ascii_digit by blast
  then have t: "takeWhile (\<lambda>c. isdecimal c \<or> c = 0x5F) (nat_digits n) = nat_digits n"
    by (simp add: takeWhile_eq_all_conv)
  from d have f: "filter isdecimal (nat_digits n) = nat_digits n"
    by (simp add: filter_id_conv)
  show ?thesis unfolding digit_count_def t f ..
qed

lemma py_int_nat_digits:
  "py_int (nat_digits n) = (if convertible n then Inr (int n) else Inl ValueError)"
proof -
  have d: "\<forall>c\<in>set (nat_digits n). 0x30 \<le> c \<and> c < 0x3A" using nat_digits_set by blast
  then have "\<forall>c\<in>set (nat_digits n). \<not> int_space c"
    by (auto simp: int_space_def)
  then have s: "strip_with int_space (nat_digits n) = nat_digits n" by (rule strip_with_id)
  have "hd (nat_digits n) \<in> set (nat_digits n)" using nat_digits_nonempty by simp
  with d have h: "hd (nat_digits n) \<noteq> 0x2D" "hd (nat_digits n) \<noteq> 0x2B" by auto
  show ?thesis
    by (simp add: py_int_def s h int_digits_nat_digits digit_count_nat_digits nat_digits_limit)
qed

lemma split_on_nosep: "sep \<notin> set s \<Longrightarrow> split_on sep s = [s]"
  by (induction s) auto

lemma split_on_append: "sep \<notin> set s \<Longrightarrow> split_on sep (s @ sep # r) = s # split_on sep r"
  by (induction s) auto

section \<open>The version calculator: properties\<close>

lemma dot_notin_digits: "0x2E \<notin> set (nat_digits n)"
  using nat_digits_set [of "0x2E" n] by auto

lemma split_version:
  "split_on 0x2E (version_string a b c) = [nat_digits a, nat_digits b, nat_digits c]"
  by (simp add: version_string_def lit_def split_on_append split_on_nosep dot_notin_digits)

lemma int_parts_version:
  "int_parts (split_on 0x2E (version_string a b c)) =
     (if convertible a \<and> convertible b \<and> convertible c then Inr [int a, int b, int c]
      else Inl ValueError)"
  by (simp add: split_version py_int_nat_digits)

lemma py_str_succ:
  "py_str (int n + 1) = (if convertible (n + 1) then Inr (nat_digits (n + 1)) else Inl ValueError)"
  using py_str_nat [of "n + 1"] by (simp add: add.commute)

lemma convertible_0: "convertible 0"
  by (simp add: convertible_def)

lemma increment_version_eq:
  "increment_version (version_string a b c) bump =
     (if convertible a \<and> convertible b \<and> convertible c \<and> convertible (bumped bump a b c)
      then Inr (if bump = lit ''major'' then version_string (a + 1) 0 0
                else if bump = lit ''minor'' then version_string a (b + 1) 0
                else version_string a b (c + 1))
      else Inl ValueError)"
  unfolding increment_version_def int_parts_version
  by (simp add: item_def py_str_nat py_str_succ bumped_def version_string_def nat_digits_0)
    (simp add: lit_def)


lemma small_convertible: "n < 10 \<Longrightarrow> convertible n"
proof -
  assume n: "n < 10"
  have "(10::nat) ^ 1 \<le> 10 ^ int_max_str_digits"
    using max_positive by (intro power_increasing) simp_all
  with n show ?thesis by (simp add: convertible_def)
qed

lemma limit_convertible:
  "convertible (10 ^ int_max_str_digits - 1)" "\<not> convertible (10 ^ int_max_str_digits - 1 + 1)"
  by (simp_all add: convertible_def)

lemma version_string_literals:
  "version_string 1 0 0 = lit ''1.0.0''" "version_string 1 0 (0 + 1) = lit ''1.0.1''"
  "version_string 1 2 3 = lit ''1.2.3''" "version_string 1 (2 + 1) 0 = lit ''1.3.0''"
  "version_string (1 + 1) 0 0 = lit ''2.0.0''"
  by (simp_all add: version_string_def nat_digits.simps lit_def)

lemma bump_literals:
  "lit ''patch'' \<noteq> lit ''major''" "lit ''patch'' \<noteq> lit ''minor''"
  "lit ''minor'' \<noteq> lit ''major''"
  by (simp_all add: lit_def)

lemma increment_version_examples:
  "increment_version (lit ''1.0.0'') (lit ''patch'') = Inr (lit ''1.0.1'')"
  "increment_version (lit ''1.2.3'') (lit ''minor'') = Inr (lit ''1.3.0'')"
  "increment_version (lit ''1.2.3'') (lit ''major'') = Inr (lit ''2.0.0'')"
proof -
  have c: "convertible 0" "convertible 1" "convertible 2" "convertible 3" "convertible 4"
    "convertible (0 + 1)" "convertible (1 + 1)" "convertible (2 + 1)"
    by (simp_all add: small_convertible)
  have "increment_version (version_string 1 0 0) (lit ''patch'') = Inr (version_string 1 0 (0 + 1))"
    using increment_version_eq [of 1 0 0 "lit ''patch''"]
    by (simp only: bump_literals bumped_def c if_False if_True simp_thms)
  then show "increment_version (lit ''1.0.0'') (lit ''patch'') = Inr (lit ''1.0.1'')"
    by (simp only: version_string_literals)
  have "increment_version (version_string 1 2 3) (lit ''minor'') = Inr (version_string 1 (2 + 1) 0)"
    using increment_version_eq [of 1 2 3 "lit ''minor''"]
    by (simp only: bump_literals bumped_def c if_False if_True simp_thms)
  then show "increment_version (lit ''1.2.3'') (lit ''minor'') = Inr (lit ''1.3.0'')"
    by (simp only: version_string_literals)
  have "increment_version (version_string 1 2 3) (lit ''major'') = Inr (version_string (1 + 1) 0 0)"
    using increment_version_eq [of 1 2 3 "lit ''major''"]
    by (simp only: bump_literals bumped_def c if_False if_True simp_thms)
  then show "increment_version (lit ''1.2.3'') (lit ''major'') = Inr (lit ''2.0.0'')"
    by (simp only: version_string_literals)
qed

text \<open>
  The version calculator raises where a conversion passes the interpreter's limit: the
  version of 4300 nines, \<open>0\<close> and \<open>0\<close> is read, and its successor has 4301 digits, which
  the f-string does not format.
\<close>

theorem increment_version_unbounded_counterexample:
  "increment_version (version_string (10 ^ 4300 - 1) 0 0) (lit ''major'') = Inl ValueError"
proof -
  have "increment_version (version_string (10 ^ int_max_str_digits - 1) 0 0) (lit ''major'')
        = Inl ValueError"
    using increment_version_eq [of "10 ^ int_max_str_digits - 1" 0 0 "lit ''major''"]
    by (simp only: bumped_def limit_convertible if_True if_False simp_thms)
  then show ?thesis by (simp only: int_max_str_digits_def)
qed

text \<open>
  C3, within the interpreter's limit. For the version string \<open>a.b.c\<close> of three non-negative
  integers of at most 4300 digits, the incremented component having at most 4300 digits
  too, \<open>increment_version\<close> returns \<open>(a+1).0.0\<close> for the bump \<open>major\<close>, \<open>a.(b+1).0\<close> for
  \<open>minor\<close>, and \<open>a.b.(c+1)\<close> for \<open>patch\<close> and for every other bump. In particular \<open>1.0.0\<close>
  with \<open>patch\<close> gives \<open>1.0.1\<close>, \<open>1.2.3\<close> with \<open>minor\<close> gives \<open>1.3.0\<close> and \<open>1.2.3\<close> with
  \<open>major\<close> gives \<open>2.0.0\<close>.
\<close>

theorem increment_version_spec:
  assumes "convertible a" and "convertible b" and "convertible c"
    and "convertible (bumped bump a b c)"
  shows "increment_version (version_string a b c) bump =
           Inr (if bump = lit ''major'' then version_string (a + 1) 0 0
                else if bump = lit ''minor'' then version_string a (b + 1) 0
                else version_string a b (c + 1))
       \<and> increment_version (lit ''1.0.0'') (lit ''patch'') = Inr (lit ''1.0.1'')
       \<and> increment_version (lit ''1.2.3'') (lit ''minor'') = Inr (lit ''1.3.0'')
       \<and> increment_version (lit ''1.2.3'') (lit ''major'') = Inr (lit ''2.0.0'')"
  using assms increment_version_eq [of a b c bump] increment_version_examples
  by (simp only: if_True simp_thms)

theorem increment_version_spec_witness:
  "convertible 1 \<and> convertible 2 \<and> convertible 3 \<and> convertible (bumped (lit ''minor'') 1 2 3)
   \<and> increment_version (version_string 1 2 3) (lit ''minor'') = Inr (version_string 1 (2 + 1) 0)"
proof -
  have c: "convertible 1" "convertible 2" "convertible 3"
    by (simp_all add: small_convertible)
  have b: "convertible (bumped (lit ''minor'') 1 2 3)"
    by (simp add: bumped_def bump_literals small_convertible)
  from increment_version_spec [OF c b] c b show ?thesis
    by (simp only: bump_literals if_True if_False simp_thms)
qed

text \<open>
  No greater version is returned where the incremented component passes the limit: the
  patch bump of \<open>0.0.n\<close>, with \<open>n\<close> of 4300 nines, raises.
\<close>

theorem increment_version_greater_counterexample:
  "increment_version (version_string 0 0 (10 ^ 4300 - 1)) (lit ''patch'') = Inl ValueError"
proof -
  have "increment_version (version_string 0 0 (10 ^ int_max_str_digits - 1)) (lit ''patch'')
        = Inl ValueError"
    using increment_version_eq [of 0 0 "10 ^ int_max_str_digits - 1" "lit ''patch''"]
    by (simp only: bumped_def bump_literals limit_convertible if_True if_False simp_thms)
  then show ?thesis by (simp only: int_max_str_digits_def)
qed

text \<open>
  C2, within the interpreter's limit. For every version of three non-negative integers of
  at most 4300 digits and every bump, the incremented component having at most 4300
  digits too, \<open>increment_version\<close> returns a string that reads back, by the module's own
  parsing, as a version strictly greater in the lexicographic order of (major, minor,
  patch).
\<close>

theorem increment_version_greater:
  assumes "convertible a" and "convertible b" and "convertible c"
    and "convertible (bumped bump a b c)"
  shows "\<exists>r a' b' c'.
     increment_version (version_string a b c) bump = Inr r \<and>
     int_parts (split_on 0x2E r) = Inr [a', b', c'] \<and>
     version_less (int a, int b, int c) (a', b', c')"
proof -
  obtain x y z where r: "increment_version (version_string a b c) bump = Inr (version_string x y z)"
    and less: "version_less (int a, int b, int c) (int x, int y, int z)"
    and conv: "convertible x" "convertible y" "convertible z"
    using increment_version_eq [of a b c bump] assms convertible_0
    by (cases "bump = lit ''major''"; cases "bump = lit ''minor''") (auto simp: bumped_def)
  from conv have "int_parts (split_on 0x2E (version_string x y z)) = Inr [int x, int y, int z]"
    by (simp add: int_parts_version)
  with r less show ?thesis by blast
qed

theorem increment_version_greater_witness:
  "convertible 1 \<and> convertible 0 \<and> convertible (bumped (lit ''patch'') 1 0 0)
   \<and> (\<exists>r a' b' c'.
     increment_version (version_string 1 0 0) (lit ''patch'') = Inr r \<and>
     int_parts (split_on 0x2E r) = Inr [a', b', c'] \<and>
     version_less (int 1, int 0, int 0) (a', b', c'))"
proof -
  have c: "convertible 1" "convertible 0"
    by (simp_all add: small_convertible)
  have b: "convertible (bumped (lit ''patch'') 1 0 0)"
    by (simp add: bumped_def bump_literals small_convertible)
  from increment_version_greater [OF c(1) c(2) c(2) b] c b show ?thesis
    by blast
qed

section \<open>The commit categorizer: properties\<close>

lemma startswith_prefix: "startswith s p \<longleftrightarrow> prefix p s"
  unfolding startswith_def prefix_def
  by (metis append_eq_conv_conj append_take_drop_id)

lemma category_keys_distinct: "distinct category_keys"
  by (simp add: category_keys_def category_order_def lit_def)

lemma category_of_key: "category_of m \<in> set category_keys"
  by (simp add: category_of_def category_keys_def category_order_def)

lemma categorize_step_eq:
  assumes "commit (lit ''message'') = Some msg"
  shows "categorize_step cats commit = append_to cats (category_of msg) msg"
  using assms
  by (simp add: categorize_step_def category_of_def category_order_def startswith_prefix)

lemma categorize_loop_filter:
  "list_all has_message commits \<Longrightarrow> set category_keys \<subseteq> dom cats \<Longrightarrow>
   categorize_loop cats commits = Inr (appended cats (messages commits))"
proof (induction commits arbitrary: cats)
  case Nil
  have "appended cats [] = cats"
    by (rule ext) (simp add: appended_def option.map_ident)
  then show ?case by (simp add: messages_def List.map_filter_simps)
next
  case (Cons c cs)
  from Cons.prems obtain msg where msg: "c (lit ''message'') = Some msg"
    by (auto simp: has_message_def)
  from Cons.prems(2) category_of_key obtain ms where ms: "cats (category_of msg) = Some ms"
    by blast
  let ?cats' = "cats(category_of msg \<mapsto> ms @ [msg])"
  have step: "categorize_step cats c = Inr ?cats'"
    using msg by (simp add: categorize_step_eq append_to_def ms)
  have "set category_keys \<subseteq> dom ?cats'" using Cons.prems(2) by auto
  with Cons have "categorize_loop ?cats' cs = Inr (appended ?cats' (messages cs))"
    by simp
  moreover have "appended ?cats' (messages cs) = appended cats (messages (c # cs))"
    by (rule ext) (auto simp: appended_def messages_def List.map_filter_simps msg ms)
  ultimately show ?case by (simp add: step)
qed

lemma categorize_commits_appended:
  "list_all has_message commits \<Longrightarrow>
   categorize_commits commits = Inr (appended empty_categories (messages commits))"
  unfolding categorize_commits_def
  by (rule categorize_loop_filter)
    (auto simp: empty_categories_def category_keys_def category_order_def)

lemma dom_appended: "dom (appended cats msgs) = dom cats"
  by (auto simp: appended_def)

lemma dom_empty_categories: "dom empty_categories = set category_keys"
  by (auto simp: empty_categories_def category_keys_def category_order_def)

lemma bucket_appended_empty:
  "bucket (appended empty_categories msgs) k = filter (\<lambda>m. category_of m = k) msgs"
proof (cases "k \<in> set category_keys")
  case True
  then have "empty_categories k = Some []"
    by (auto simp: empty_categories_def category_keys_def category_order_def)
  then show ?thesis by (simp add: bucket_def appended_def)
next
  case False
  then have "empty_categories k = None" using dom_empty_categories by blast
  moreover have "filter (\<lambda>m. category_of m = k) msgs = []"
    using False category_of_key by (auto simp: filter_empty_conv)
  ultimately show ?thesis by (simp add: bucket_def appended_def)
qed

lemma message_in_messages:
  "c \<in> set commits \<Longrightarrow> c (lit ''message'') = Some m \<Longrightarrow> m \<in> set (messages commits)"
  by (induction commits) (auto simp: messages_def List.map_filter_simps split: option.splits)

lemma length_messages:
  "list_all has_message commits \<Longrightarrow> length (messages commits) = length commits"
  by (induction commits) (auto simp: messages_def List.map_filter_simps has_message_def)

lemma sum_indicator_0:
  "y \<notin> set ks \<Longrightarrow> sum_list (map (\<lambda>k. if y = k then 1 else 0) ks) = (0::nat)"
  by (induction ks) auto

lemma sum_indicator_1:
  "distinct ks \<Longrightarrow> y \<in> set ks \<Longrightarrow>
   sum_list (map (\<lambda>k. if y = k then 1 else 0) ks) = (1::nat)"
  by (induction ks) (auto simp: sum_indicator_0)

lemma sum_filter_lengths:
  "distinct ks \<Longrightarrow> \<forall>x\<in>set xs. f x \<in> set ks \<Longrightarrow>
   sum_list (map (\<lambda>k. length (filter (\<lambda>x. f x = k) xs)) ks) = length xs"
proof (induction xs)
  case Nil
  then show ?case by simp
next
  case (Cons x xs)
  have one: "sum_list (map (\<lambda>k. if f x = k then 1 else 0) ks) = (1::nat)"
    using Cons.prems by (simp add: sum_indicator_1)
  have "sum_list (map (\<lambda>k. length (filter (\<lambda>y. f y = k) (x # xs))) ks)
        = sum_list (map (\<lambda>k. (if f x = k then 1 else 0) + length (filter (\<lambda>y. f y = k) xs)) ks)"
    by (rule arg_cong [where f = sum_list]) simp
  also have "\<dots> = sum_list (map (\<lambda>k. if f x = k then 1 else 0) ks)
                  + sum_list (map (\<lambda>k. length (filter (\<lambda>y. f y = k) xs)) ks)"
    by (simp add: sum_list_addf)
  finally show ?case using Cons one by simp
qed

lemma messages_single: "messages [[lit ''message'' \<mapsto> m, lit ''hash'' \<mapsto> h]] = [m]"
  by (simp add: messages_def List.map_filter_simps lit_def)

lemma has_message_commit: "has_message [lit ''message'' \<mapsto> m, lit ''hash'' \<mapsto> h]"
  by (simp add: has_message_def lit_def)

lemma category_of_examples:
  "category_of (lit ''feat: perf improvements'') = lit ''feat''"
  "category_of (lit ''featuring'') = lit ''feat''"
  "category_of (lit ''Feat: x'') = lit ''other''"
  "category_of (lit ''fix: y'') = lit ''fix''"
  by (simp_all add: category_of_def category_order_def lit_def)

lemma example_commits_ok: "list_all has_message example_commits"
  by (simp add: example_commits_def has_message_commit)

lemma example_commits2_ok: "list_all has_message example_commits2"
  by (simp add: example_commits2_def has_message_commit)

text \<open>
  C1. For every list of commits (dictionaries that have a message), \<open>categorize_commits\<close>
  raises nothing and returns a mapping whose keys are exactly \<open>feat\<close>, \<open>fix\<close>, \<open>perf\<close>,
  \<open>refactor\<close>, \<open>docs\<close> and \<open>other\<close>; the message of every commit is in exactly one bucket,
  the lengths of the six buckets sum to the length of the input, and every bucket is a
  subsequence of the messages in input order.
\<close>

theorem categorize_commits_partition:
  assumes "list_all has_message commits"
  shows "\<exists>cats. categorize_commits commits = Inr cats
           \<and> dom cats = {lit ''feat'', lit ''fix'', lit ''perf'', lit ''refactor'', lit ''docs'',
                         lit ''other''}
           \<and> (\<forall>c\<in>set commits. \<forall>m. c (lit ''message'') = Some m \<longrightarrow>
                 (\<exists>!k. k \<in> dom cats \<and> m \<in> set (bucket cats k)))
           \<and> sum_list (map (\<lambda>k. length (bucket cats k)) category_keys) = length commits
           \<and> (\<forall>k\<in>dom cats. subseq (bucket cats k) (messages commits))"
proof -
  let ?cats = "appended empty_categories (messages commits)"
  have b: "\<And>k. bucket ?cats k = filter (\<lambda>m. category_of m = k) (messages commits)"
    by (rule bucket_appended_empty)
  have d: "dom ?cats = set category_keys"
    by (simp add: dom_appended dom_empty_categories)
  have one: "\<exists>!k. k \<in> dom ?cats \<and> m \<in> set (bucket ?cats k)"
    if "c \<in> set commits" "c (lit ''message'') = Some m" for c m
  proof
    show "category_of m \<in> dom ?cats \<and> m \<in> set (bucket ?cats (category_of m))"
      using that message_in_messages [of c commits m] category_of_key [of m] by (simp add: b d)
  next
    fix k assume "k \<in> dom ?cats \<and> m \<in> set (bucket ?cats k)"
    then show "k = category_of m" by (simp add: b)
  qed
  have "sum_list (map (\<lambda>k. length (bucket ?cats k)) category_keys) = length (messages commits)"
    unfolding b by (rule sum_filter_lengths) (simp_all add: category_keys_distinct category_of_key)
  then have total: "sum_list (map (\<lambda>k. length (bucket ?cats k)) category_keys) = length commits"
    using assms by (simp add: length_messages)
  have order: "\<forall>k\<in>dom ?cats. subseq (bucket ?cats k) (messages commits)"
    by (simp add: b)
  have keys: "set category_keys
    = {lit ''feat'', lit ''fix'', lit ''perf'', lit ''refactor'', lit ''docs'', lit ''other''}"
    by (auto simp: category_keys_def category_order_def)
  from categorize_commits_appended [OF assms] d one total order show ?thesis
    unfolding keys [symmetric] by blast
qed

theorem categorize_commits_partition_witness:
  "list_all has_message example_commits \<and>
   (\<exists>cats. categorize_commits example_commits = Inr cats
           \<and> dom cats = {lit ''feat'', lit ''fix'', lit ''perf'', lit ''refactor'', lit ''docs'',
                         lit ''other''}
           \<and> (\<forall>c\<in>set example_commits. \<forall>m. c (lit ''message'') = Some m \<longrightarrow>
                 (\<exists>!k. k \<in> dom cats \<and> m \<in> set (bucket cats k)))
           \<and> sum_list (map (\<lambda>k. length (bucket cats k)) category_keys) = length example_commits
           \<and> (\<forall>k\<in>dom cats. subseq (bucket cats k) (messages example_commits)))"
  using categorize_commits_partition [OF example_commits_ok] example_commits_ok by simp

text \<open>
  C7. Every commit goes to the bucket of the first category, in the order \<open>feat\<close>, \<open>fix\<close>,
  \<open>perf\<close>, \<open>refactor\<close>, \<open>docs\<close>, whose name is a prefix of its message, and to \<open>other\<close> when
  no name is: each bucket holds exactly the messages of that category. The test is a plain
  prefix test on the characters, so \<open>featuring\<close> is in \<open>feat\<close>, \<open>Feat: x\<close> is in \<open>other\<close>, and
  \<open>feat: perf improvements\<close> is in \<open>feat\<close> and not in \<open>perf\<close>.
\<close>

theorem categorize_commits_first_prefix:
  assumes "list_all has_message commits"
  shows "(\<exists>cats. categorize_commits commits = Inr cats
           \<and> (\<forall>k. bucket cats k = filter (\<lambda>m. category_of m = k) (messages commits)))
       \<and> (\<exists>cats. categorize_commits example_commits = Inr cats
           \<and> bucket cats (lit ''feat'') = [lit ''feat: perf improvements'']
           \<and> bucket cats (lit ''perf'') = []
           \<and> bucket cats (lit ''other'') = [lit ''Feat: x''])
       \<and> (\<exists>cats. categorize_commits example_commits2 = Inr cats
           \<and> bucket cats (lit ''feat'') = [lit ''featuring''])"
proof -
  have m1: "messages example_commits
            = [lit ''feat: perf improvements'', lit ''Feat: x'', lit ''fix: y'']"
    and m2: "messages example_commits2 = [lit ''featuring'', lit ''chore: z'']"
    by (simp_all add: example_commits_def example_commits2_def messages_def
        List.map_filter_simps lit_def)
  have c: "category_of (lit ''chore: z'') = lit ''other''"
    by (simp add: category_of_def category_order_def lit_def)
  have ne: "lit ''feat'' \<noteq> lit ''perf''" "lit ''feat'' \<noteq> lit ''other''"
    "lit ''other'' \<noteq> lit ''perf''" "lit ''fix'' \<noteq> lit ''perf''" "lit ''fix'' \<noteq> lit ''feat''"
    "lit ''fix'' \<noteq> lit ''other''" "lit ''other'' \<noteq> lit ''feat''"
    by (simp_all add: lit_def)
  have "\<exists>cats. categorize_commits commits = Inr cats
           \<and> (\<forall>k. bucket cats k = filter (\<lambda>m. category_of m = k) (messages commits))"
    using categorize_commits_appended [OF assms] bucket_appended_empty by blast
  moreover
  have "\<exists>cats. categorize_commits example_commits = Inr cats
           \<and> bucket cats (lit ''feat'') = [lit ''feat: perf improvements'']
           \<and> bucket cats (lit ''perf'') = []
           \<and> bucket cats (lit ''other'') = [lit ''Feat: x'']"
    using categorize_commits_appended [OF example_commits_ok]
    by (simp add: bucket_appended_empty m1 category_of_examples ne)
  moreover
  have "\<exists>cats. categorize_commits example_commits2 = Inr cats
           \<and> bucket cats (lit ''feat'') = [lit ''featuring'']"
    using categorize_commits_appended [OF example_commits2_ok]
    by (simp add: bucket_appended_empty m2 category_of_examples c ne)
  ultimately show ?thesis by blast
qed

theorem categorize_commits_first_prefix_witness:
  "list_all has_message example_commits2 \<and>
   (\<exists>cats. categorize_commits example_commits2 = Inr cats
      \<and> (\<forall>k. bucket cats k = filter (\<lambda>m. category_of m = k) (messages example_commits2)))"
  using categorize_commits_first_prefix [OF example_commits2_ok] example_commits2_ok by simp

section \<open>The matcher and the tag resolver: properties\<close>




















lemma dropWhile_all_iff: "(\<forall>x\<in>set (dropWhile p s). p x) \<longleftrightarrow> (\<forall>x\<in>set s. p x)"
  by (induction s) auto

lemma strip_empty_iff: "strip s = [] \<longleftrightarrow> list_all isspace s"
  by (simp add: strip_def strip_with_def dropWhile_eq_Nil_conv dropWhile_all_iff list_all_iff)

lemma no_match_empty: "\<not> re_match_end semver_pattern []"
  by (simp add: re_match_end_def semver_pattern_def chr_def)

lemma query_failed_cases:
  "query_failed r \<Longrightarrow> returncode r \<noteq> 0 \<or> strip (stdout_or_empty r) = []"
  by (auto simp: query_failed_def stdout_or_empty_def strip_empty_iff split: option.splits)



text \<open>
  C5. A failed query (a non-zero exit status, or output that is absent, empty or only white
  space) raises nothing: \<open>get_latest_tag\<close> returns \<open>None\<close> and \<open>get_commits_since_tag\<close>
  returns the empty list. Neither function has an exception among its results at all.
\<close>

theorem query_failure_soft:
  "(query_failed (run tag_command root) \<longrightarrow> get_latest_tag run root = None)
   \<and> (query_failed (run (log_command tag) root) \<longrightarrow> get_commits_since_tag run tag root = [])"
proof (intro conjI impI)
  assume "query_failed (run tag_command root)"
  from query_failed_cases [OF this] show "get_latest_tag run root = None"
    by (auto simp: get_latest_tag_def Let_def no_match_empty)
next
  assume "query_failed (run (log_command tag) root)"
  from query_failed_cases [OF this] show "get_commits_since_tag run tag root = []"
    by (auto simp: get_commits_since_tag_def Let_def)
qed

theorem query_failure_soft_witness:
  "query_failed (constant_run 128 (Some []) tag_command []) \<and>
   get_latest_tag (constant_run 128 (Some [])) [] = None \<and>
   query_failed (constant_run 0 None (log_command (lit ''1.0.0'')) []) \<and>
   get_commits_since_tag (constant_run 0 None) (lit ''1.0.0'') [] = []"
proof -
  have f1: "query_failed (constant_run 128 (Some []) tag_command [])"
    and f2: "query_failed (constant_run 0 None (log_command (lit ''1.0.0'')) [])"
    by (simp_all add: query_failed_def constant_run_def)
  from query_failure_soft [of "constant_run 128 (Some [])" "[]"] f1
  have "get_latest_tag (constant_run 128 (Some [])) [] = None" by simp
  moreover from query_failure_soft [of "constant_run 0 None" "[]" "lit ''1.0.0''"] f2
  have "get_commits_since_tag (constant_run 0 None) (lit ''1.0.0'') [] = []" by simp
  ultimately show ?thesis using f1 f2 by simp
qed

section \<open>The commit harvester: properties\<close>


lemma split_max_fields:
  "split_max sep (Suc n) s =
     (if sep \<in> set s
      then takeWhile (\<lambda>c. c \<noteq> sep) s # split_max sep n (drop 1 (dropWhile (\<lambda>c. c \<noteq> sep) s))
      else [s])"
  by (induction s) auto

lemma takeWhile_no_sep: "sep \<notin> set s \<Longrightarrow> takeWhile (\<lambda>c. c \<noteq> sep) s = s"
  by (induction s) auto

lemma split_max_2_length:
  "length (split_max sep 2 s) \<le> 3 \<and> (2 \<le> length (split_max sep 2 s) \<longleftrightarrow> sep \<in> set s)"
  by (simp add: numeral_2_eq_2 split_max_fields)

lemma split_max_2_parts:
  "0x7C \<in> set s \<Longrightarrow> split_max 0x7C 2 s ! 0 = field1 s"
  "0x7C \<in> set s \<Longrightarrow> split_max 0x7C 2 s ! Suc 0 = field2 s"
  by (simp_all add: numeral_2_eq_2 split_max_fields field1_def field2_def takeWhile_no_sep)

lemma parse_commits_fields:
  "parse_commits lines =
     map (\<lambda>l. [lit ''message'' \<mapsto> field1 l, lit ''hash'' \<mapsto> field2 l])
       (filter (\<lambda>l. 0x7C \<in> set l) lines)"
proof (induction lines)
  case Nil
  then show ?case by simp
next
  case (Cons l lines)
  show ?case
  proof (cases "0x7C \<in> set l")
    case True
    with split_max_2_length [of "0x7C" l] have "2 \<le> length (split_max 0x7C 2 l)" by simp
    with True Cons show ?thesis by (simp add: Let_def split_max_2_parts fun_eq_iff)
  next
    case False
    with split_max_2_length [of "0x7C" l] have "\<not> 2 \<le> length (split_max 0x7C 2 l)" by simp
    with False Cons show ?thesis by (simp add: Let_def)
  qed
qed





section \<open>The release notes generator: properties\<close>

lemma rx_run_literal: "rx_run (map chr token @ rest) (token @ s) = rx_run rest s"
  by (induction token) (simp_all add: chr_def)

lemma star_run_first: "\<exists>rest. star_run p s = dropWhile p s # rest"
  by (induction s) auto

lemma concat_rx_run_Nil: "concat (map (rx_run []) xs) = xs"
  by (induction xs) simp_all

lemma rx_run_star: "rx_run [(p, Star)] s = star_run p s"
  by (simp add: concat_rx_run_Nil)

lemma re_sub_start_prefix:
  assumes "startswith msg token"
  shows "rx_run (prefix_pattern token) msg \<noteq> []"
    and "re_sub_start (prefix_pattern token) [] msg = stripped token msg"
proof -
  from assms have msg: "msg = token @ drop (length token) msg"
    by (metis append_take_drop_id startswith_def)
  obtain rest where r: "star_run colon_space (drop (length token) msg)
                        = dropWhile colon_space (drop (length token) msg) # rest"
    using star_run_first by blast
  have run: "rx_run (prefix_pattern token) msg = star_run colon_space (drop (length token) msg)"
    unfolding prefix_pattern_def by (subst msg) (simp only: rx_run_literal rx_run_star)
  from run r show "rx_run (prefix_pattern token) msg \<noteq> []" by simp
  from run r show "re_sub_start (prefix_pattern token) [] msg = stripped token msg"
    by (simp add: re_sub_start_def stripped_def)
qed

lemma category_of_prefix:
  "category_of m = k \<Longrightarrow> k \<in> set category_order \<Longrightarrow> startswith m k"
  by (auto simp: category_of_def category_order_def startswith_prefix lit_def
      split: option.splits if_splits)

lemma notes_section_rendered:
  assumes "cats key = Some msgs" and "\<forall>m\<in>set msgs. startswith m key"
  shows "notes_section cats key title lines = Inr (lines @ rendered_section key title msgs)"
proof -
  have "map (\<lambda>msg. lit ''- '' @ re_sub_start (prefix_pattern key) [] msg) msgs
        = map (\<lambda>msg. lit ''- '' @ stripped key msg) msgs"
    using assms(2) by (simp add: re_sub_start_prefix)
  with assms(1) show ?thesis
    by (simp add: notes_section_def rendered_section_def)
qed


lemma harvested_have_message: "list_all has_message (get_commits_since_tag run tag root)"
  by (simp add: get_commits_since_tag_def Let_def parse_commits_fields list_all_iff
      has_message_def)

lemma generate_release_notes_rendered:
  assumes "tag \<noteq> []"
  shows "generate_release_notes run version (Some tag) root =
           Inr (rendered_notes version (messages (get_commits_since_tag run tag root)))"
proof -
  let ?msgs = "messages (get_commits_since_tag run tag root)"
  let ?cats = "appended empty_categories ?msgs"
  have cats: "categorize_commits (get_commits_since_tag run tag root) = Inr ?cats"
    by (rule categorize_commits_appended) (rule harvested_have_message)
  have lookup: "?cats k = Some (filter (\<lambda>m. category_of m = k) ?msgs)"
    if "k \<in> set category_order" for k
    using that
    by (auto simp: appended_def empty_categories_def category_order_def)
  have starts: "\<forall>m\<in>set (filter (\<lambda>m. category_of m = k) ?msgs). startswith m k"
    if "k \<in> set category_order" for k
    using that category_of_prefix by auto
  have sec: "notes_section ?cats k title lines =
             Inr (lines @ rendered_section k title (filter (\<lambda>m. category_of m = k) ?msgs))"
    if "k \<in> set category_order" for k title lines
    using lookup [OF that] starts [OF that] by (rule notes_section_rendered)
  have k: "lit ''feat'' \<in> set category_order" "lit ''fix'' \<in> set category_order"
    "lit ''perf'' \<in> set category_order" "lit ''refactor'' \<in> set category_order"
    by (simp_all add: category_order_def)
  show ?thesis
    using assms
    by (simp add: generate_release_notes_def cats sec k rendered_notes_def heading_def)
qed


lemma prefix_join: "prefix x (join sep (x # xs))"
  by (cases xs) simp_all

lemma featuring_messages:
  "messages (get_commits_since_tag (constant_run 0 (Some example_featuring_log)) tag root)
   = [lit ''featuring X'']"
  by (simp add: get_commits_since_tag_def constant_run_def stdout_or_empty_def
      example_featuring_log_def Let_def strip_def strip_with_def lit_def isspace_def
      numeral_2_eq_2 messages_def List.map_filter_simps)

lemma notes_messages:
  "messages (get_commits_since_tag (constant_run 0 (Some example_notes_log)) tag root)
   = [lit ''docs: d'', lit ''fix: b'', lit ''feat: a'', lit ''chore'', lit ''fix:c'']"
  by (simp add: get_commits_since_tag_def constant_run_def stdout_or_empty_def
      example_notes_log_def Let_def strip_def strip_with_def lit_def isspace_def
      numeral_2_eq_2 messages_def List.map_filter_simps)

lemma featuring_rendered:
  "rendered_notes (lit ''1.0.0'') [lit ''featuring X'']
   = heading (lit ''1.0.0'') @ [0x0A] @ feat_title @ [0x0A] @ lit ''- uring X'' @ [0x0A]"
  by (simp add: rendered_notes_def rendered_section_def category_of_def category_order_def
      stripped_def colon_space_def isspace_def lit_def)

lemma notes_rendered:
  "rendered_notes (lit ''1.1.0'')
     [lit ''docs: d'', lit ''fix: b'', lit ''feat: a'', lit ''chore'', lit ''fix:c'']
   = heading (lit ''1.1.0'') @ [0x0A] @ feat_title @ [0x0A] @ lit ''- a'' @ [0x0A, 0x0A]
     @ fix_title @ [0x0A] @ lit ''- b'' @ [0x0A] @ lit ''- c'' @ [0x0A]"
  by (simp add: rendered_notes_def rendered_section_def category_of_def category_order_def
      stripped_def colon_space_def isspace_def lit_def)

lemma japanese_messages:
  "messages (get_commits_since_tag (constant_run 0 (Some example_japanese_log)) tag root)
   = [lit ''feat: '' @ [0x65B0, 0x6A5F, 0x80FD, 0x8FFD, 0x52A0],
      lit ''fix: '' @ [0x30D0, 0x30B0, 0x4FEE, 0x6B63]]"
  by (simp add: get_commits_since_tag_def constant_run_def stdout_or_empty_def
      example_japanese_log_def Let_def strip_def strip_with_def lit_def isspace_def
      numeral_2_eq_2 messages_def List.map_filter_simps)

lemma japanese_rendered:
  "rendered_notes (lit ''1.1.0'')
     [lit ''feat: '' @ [0x65B0, 0x6A5F, 0x80FD, 0x8FFD, 0x52A0],
      lit ''fix: '' @ [0x30D0, 0x30B0, 0x4FEE, 0x6B63]]
   = heading (lit ''1.1.0'') @ [0x0A] @ feat_title @ [0x0A]
     @ lit ''- '' @ [0x65B0, 0x6A5F, 0x80FD, 0x8FFD, 0x52A0] @ [0x0A, 0x0A]
     @ fix_title @ [0x0A] @ lit ''- '' @ [0x30D0, 0x30B0, 0x4FEE, 0x6B63] @ [0x0A]"
  by (simp add: rendered_notes_def rendered_section_def category_of_def category_order_def
      stripped_def colon_space_def isspace_def lit_def)

text \<open>
  C8, for a tag that is not empty. When the previous tag is present and not the empty
  string, the notes are the version heading followed by one section for each non-empty
  bucket among \<open>feat\<close>, \<open>fix\<close>, \<open>perf\<close> and \<open>refactor\<close>, in that order: the title of the
  category, one line \<open>- \<close> and the message without its category token and the colons and
  white space after it for each message of the bucket in harvest order, and an empty
  line; the buckets \<open>docs\<close> and \<open>other\<close> are not rendered and an empty bucket gives no
  section. The lines are joined by newlines. The log of the test, with its two Japanese
  subjects, gives the two sections with the prefixes \<open>feat: \<close> and \<open>fix: \<close> removed.
\<close>

theorem release_notes_sections:
  assumes "tag \<noteq> []"
  shows "generate_release_notes run version (Some tag) root =
           Inr (rendered_notes version (messages (get_commits_since_tag run tag root)))
       \<and> generate_release_notes (constant_run 0 (Some example_notes_log)) (lit ''1.1.0'')
             (Some tag) root =
           Inr (heading (lit ''1.1.0'') @ [0x0A] @ feat_title @ [0x0A] @ lit ''- a'' @ [0x0A, 0x0A]
                @ fix_title @ [0x0A] @ lit ''- b'' @ [0x0A] @ lit ''- c'' @ [0x0A])
       \<and> generate_release_notes (constant_run 0 (Some example_japanese_log)) (lit ''1.1.0'')
             (Some (lit ''1.0.0'')) root =
           Inr (heading (lit ''1.1.0'') @ [0x0A] @ feat_title @ [0x0A]
                @ lit ''- '' @ [0x65B0, 0x6A5F, 0x80FD, 0x8FFD, 0x52A0] @ [0x0A, 0x0A]
                @ fix_title @ [0x0A] @ lit ''- '' @ [0x30D0, 0x30B0, 0x4FEE, 0x6B63] @ [0x0A])"
proof -
  have ne: "lit ''1.0.0'' \<noteq> []" by (simp add: lit_def)
  from generate_release_notes_rendered [OF assms, of run version root]
    generate_release_notes_rendered
      [OF assms, of "constant_run 0 (Some example_notes_log)" "lit ''1.1.0''" root]
    generate_release_notes_rendered
      [OF ne, of "constant_run 0 (Some example_japanese_log)" "lit ''1.1.0''" root]
  show ?thesis
    by (simp only: notes_messages notes_rendered japanese_messages japanese_rendered simp_thms)
qed

theorem release_notes_sections_witness:
  "lit ''1.0.0'' \<noteq> [] \<and>
   generate_release_notes (constant_run 0 (Some example_notes_log)) (lit ''1.1.0'')
       (Some (lit ''1.0.0'')) [] =
     Inr (heading (lit ''1.1.0'') @ [0x0A] @ feat_title @ [0x0A] @ lit ''- a'' @ [0x0A, 0x0A]
          @ fix_title @ [0x0A] @ lit ''- b'' @ [0x0A] @ lit ''- c'' @ [0x0A])"
proof -
  have ne: "lit ''1.0.0'' \<noteq> []" by (simp add: lit_def)
  from release_notes_sections [OF ne, of "constant_run 0 (Some example_notes_log)" "lit ''1.1.0''" "[]"] ne
  show ?thesis by blast
qed

text \<open>
  The empty string is a tag that is present and is treated as absent: with a log that holds
  a \<open>feat\<close> commit the notes are the heading alone, not the heading and the section.
\<close>

theorem release_notes_empty_tag_counterexample:
  "generate_release_notes (constant_run 0 (Some example_featuring_log)) (lit ''1.0.0'')
       (Some []) [] = Inr (heading (lit ''1.0.0''))
   \<and> rendered_notes (lit ''1.0.0'')
        (messages (get_commits_since_tag (constant_run 0 (Some example_featuring_log)) [] []))
      = heading (lit ''1.0.0'') @ [0x0A] @ feat_title @ [0x0A] @ lit ''- uring X'' @ [0x0A]
   \<and> generate_release_notes (constant_run 0 (Some example_featuring_log)) (lit ''1.0.0'')
       (Some []) []
      \<noteq> Inr (rendered_notes (lit ''1.0.0'')
            (messages (get_commits_since_tag (constant_run 0 (Some example_featuring_log)) [] [])))"
  by (simp add: featuring_messages featuring_rendered)
    (simp add: generate_release_notes_def heading_def)

text \<open>
  C9. The notes always begin with the heading \<open>## v\<close> and the version, and without a
  previous tag they are that heading line and nothing else, whatever the version: no
  section, title or bullet is emitted.
\<close>

theorem release_notes_heading:
  "generate_release_notes run version None root = Inr (lit ''## v'' @ version @ [0x0A])
   \<and> (\<exists>out. generate_release_notes run version prev_tag root = Inr out
            \<and> prefix (lit ''## v'' @ version @ [0x0A]) out)"
proof -
  have none: "generate_release_notes run version None root = Inr (lit ''## v'' @ version @ [0x0A])"
    by (simp add: generate_release_notes_def)
  have "\<exists>out. generate_release_notes run version prev_tag root = Inr out
            \<and> prefix (lit ''## v'' @ version @ [0x0A]) out"
  proof (cases prev_tag)
    case None
    with none show ?thesis by simp
  next
    case (Some tag)
    show ?thesis
    proof (cases "tag = []")
      case True
      with Some show ?thesis by (simp add: generate_release_notes_def)
    next
      case False
      from generate_release_notes_rendered [OF False, of run version root] Some show ?thesis
        by (simp add: rendered_notes_def heading_def prefix_join)
    qed
  qed
  with none show ?thesis by blast
qed

lemma rendered_buckets_match:
  "\<exists>cats. categorize_commits (get_commits_since_tag run tag root) = Inr cats
      \<and> (\<forall>k\<in>set [lit ''feat'', lit ''fix'', lit ''perf'', lit ''refactor''].
           \<forall>m\<in>set (bucket cats k).
             startswith m k \<and> rx_run (prefix_pattern k) m \<noteq> []
             \<and> re_sub_start (prefix_pattern k) [] m = stripped k m)"
proof -
  let ?msgs = "messages (get_commits_since_tag run tag root)"
  let ?cats = "appended empty_categories ?msgs"
  have cats: "categorize_commits (get_commits_since_tag run tag root) = Inr ?cats"
    by (rule categorize_commits_appended) (rule harvested_have_message)
  have "startswith m k \<and> rx_run (prefix_pattern k) m \<noteq> []
        \<and> re_sub_start (prefix_pattern k) [] m = stripped k m"
    if k: "k \<in> set [lit ''feat'', lit ''fix'', lit ''perf'', lit ''refactor'']"
      and m: "m \<in> set (bucket ?cats k)" for k m
  proof -
    from k have "k \<in> set category_order" by (auto simp: category_order_def)
    moreover from m have "category_of m = k" by (simp add: bucket_appended_empty)
    ultimately have "startswith m k" by (rule category_of_prefix [rotated])
    with re_sub_start_prefix [of m k] show ?thesis by simp
  qed
  with cats show ?thesis by blast
qed

text \<open>
  C10. For every message that starts with the token of its category the pattern of the
  substitution matches, since the colons and white space may be none, so that the branch of
  \<open>re.sub\<close> that returns the message unchanged is not taken: the token is removed together
  with the colons and white space after it, also when none follows. This holds of every
  message in the four rendered buckets of every harvest, starting with the token being the
  condition under which a message enters its bucket. A commit \<open>featuring X\<close> is rendered as
  the bullet \<open>- uring X\<close> under the features.
\<close>

theorem prefix_always_stripped:
  assumes "startswith msg token"
  shows "rx_run (prefix_pattern token) msg \<noteq> []
       \<and> re_sub_start (prefix_pattern token) [] msg = stripped token msg
       \<and> (\<exists>cats. categorize_commits (get_commits_since_tag run tag root) = Inr cats
            \<and> (\<forall>k\<in>set [lit ''feat'', lit ''fix'', lit ''perf'', lit ''refactor''].
                 \<forall>m\<in>set (bucket cats k).
                   startswith m k \<and> rx_run (prefix_pattern k) m \<noteq> []
                   \<and> re_sub_start (prefix_pattern k) [] m = stripped k m))
       \<and> re_sub_start (prefix_pattern (lit ''feat'')) [] (lit ''featuring X'') = lit ''uring X''
       \<and> generate_release_notes (constant_run 0 (Some example_featuring_log)) (lit ''1.0.0'')
             (Some (lit ''0.9.0'')) root =
           Inr (heading (lit ''1.0.0'') @ [0x0A] @ feat_title @ [0x0A] @ lit ''- uring X'' @ [0x0A])"
proof -
  have s: "startswith (lit ''featuring X'') (lit ''feat'')"
    by (simp add: startswith_def lit_def)
  have "stripped (lit ''feat'') (lit ''featuring X'') = lit ''uring X''"
    by (simp add: stripped_def colon_space_def isspace_def lit_def)
  with re_sub_start_prefix(2) [OF s]
  have ex: "re_sub_start (prefix_pattern (lit ''feat'')) [] (lit ''featuring X'') = lit ''uring X''"
    by simp
  have ne: "lit ''0.9.0'' \<noteq> []" by (simp add: lit_def)
  from generate_release_notes_rendered [OF ne, of "constant_run 0 (Some example_featuring_log)" "lit ''1.0.0''" root]
  have out: "generate_release_notes (constant_run 0 (Some example_featuring_log)) (lit ''1.0.0'')
             (Some (lit ''0.9.0'')) root =
           Inr (heading (lit ''1.0.0'') @ [0x0A] @ feat_title @ [0x0A] @ lit ''- uring X'' @ [0x0A])"
    by (simp only: featuring_messages featuring_rendered)
  from re_sub_start_prefix [OF assms] rendered_buckets_match [of run tag root] ex out
  show ?thesis by blast
qed

theorem prefix_always_stripped_witness:
  "startswith (lit ''featuring X'') (lit ''feat'')
   \<and> rx_run (prefix_pattern (lit ''feat'')) (lit ''featuring X'') \<noteq> []
   \<and> re_sub_start (prefix_pattern (lit ''feat'')) [] (lit ''featuring X'')
       = stripped (lit ''feat'') (lit ''featuring X'')"
proof -
  have s: "startswith (lit ''featuring X'') (lit ''feat'')"
    by (simp add: startswith_def lit_def)
  from prefix_always_stripped [OF s, of "constant_run 0 None" "[]" "[]"] s show ?thesis by blast
qed

end
